theory Spec2Isabelle
  imports Complex_Main "HOL-Library.Stream"
begin

section \<open>Values of the host language\<close>

text \<open>
  The game keeps its numbers in JavaScript Numbers. Every number the game computes is an
  integer (scores, milliseconds, array indices), so a Number is modelled as a mathematical
  integer, plus the one non-integer value that \<open>parseInt\<close> can hand to the game, \<open>NaN\<close>.
  A Number holds every integer up to \<open>2 ^ 53\<close> exactly. Beyond that a Number is the nearest
  double, where the model keeps the exact integer: a game would need some \<open>10 ^ 14\<close> correct
  answers to get there. What a saved Number is stored as and what a stored numeral loads as
  is stated below for integers up to \<open>2 ^ 53\<close> and at \<open>10 ^ 21\<close>, where the model and the
  language agree.
  The values of \<open>Math.random()\<close> are real numbers.
  Strings are lists of 8-bit characters (the Latin-1 part of a JavaScript string).
  A property that is \<open>undefined\<close> is \<open>None\<close>.
\<close>

datatype jsnum = NaN | Num int

text \<open>\<open>a > b\<close> for a score \<open>a\<close> and a Number \<open>b\<close>: every comparison with \<open>NaN\<close> is false.\<close>

fun js_gt :: "int \<Rightarrow> jsnum \<Rightarrow> bool" where
  "js_gt a NaN = False"
| "js_gt a (Num b) = (b < a)"

text \<open>\<open>a < b\<close> on Numbers.\<close>

fun js_lt :: "jsnum \<Rightarrow> jsnum \<Rightarrow> bool" where
  "js_lt (Num a) (Num b) = (a < b)"
| "js_lt _ _ = False"

text \<open>\<open>xs[i]\<close>: a read outside the array yields \<open>undefined\<close>.\<close>

definition array_get :: "'a list \<Rightarrow> int \<Rightarrow> 'a option" where
  "array_get xs i = (if 0 \<le> i \<and> i < int (length xs) then Some (xs ! nat i) else None)"

subsection \<open>Number.prototype.toString and parseInt\<close>

definition digit_char :: "nat \<Rightarrow> char" where
  "digit_char d = char_of (48 + d)"

fun decimal :: "nat \<Rightarrow> string" where
  "decimal n = (if n < 10 then [digit_char n] else decimal (n div 10) @ [digit_char (n mod 10)])"

declare decimal.simps [simp del]

text \<open>
  The exponent notation of \<open>Number.prototype.toString\<close>: the significant digits, a point
  after the first of them when there are several, then \<open>e+\<close> and the decimal exponent.
\<close>

definition exponent_form :: "nat \<Rightarrow> string" where
  "exponent_form m =
     (let ds = decimal m;
          e = length ds - 1;
          sig = rev (dropWhile (\<lambda>c. c = CHR ''0'') (rev ds))
      in (if length sig = 1 then sig else hd sig # CHR ''.'' # tl sig) @ ''e+'' @ decimal e)"

text \<open>
  \<open>x.toString()\<close> for an integral Number: a minus sign when negative, then the decimal
  digits for a magnitude below \<open>10 ^ 21\<close> and the exponent notation from \<open>10 ^ 21\<close> on
  (\<open>1e+21\<close> for \<open>10 ^ 21\<close>).
\<close>

fun number_toString :: "jsnum \<Rightarrow> string" where
  "number_toString NaN = ''NaN''"
| "number_toString (Num n) =
     (let m = nat \<bar>n\<bar>;
          digits = (if m < 10 ^ 21 then decimal m else exponent_form m)
      in if n < 0 then CHR ''-'' # digits else digits)"

text \<open>White space that \<open>parseInt\<close> skips: TAB, LF, VT, FF, CR, SP, NBSP.\<close>

definition is_whitespace :: "char \<Rightarrow> bool" where
  "is_whitespace c = ((of_char c :: nat) \<in> {9, 10, 11, 12, 13, 32, 160})"

text \<open>The value of a character as a digit of radix \<open>R\<close>, if it is one.\<close>

definition digit_value :: "nat \<Rightarrow> char \<Rightarrow> nat option" where
  "digit_value R c =
     (let n = (of_char c :: nat);
          v = (if 48 \<le> n \<and> n \<le> 57 then Some (n - 48)
               else if 97 \<le> n \<and> n \<le> 122 then Some (n - 87)
               else if 65 \<le> n \<and> n \<le> 90 then Some (n - 55)
               else None)
      in case v of None \<Rightarrow> None | Some d \<Rightarrow> if d < R then Some d else None)"

text \<open>The longest prefix of radix-\<open>R\<close> digits, as their values.\<close>

fun leading_digits :: "nat \<Rightarrow> string \<Rightarrow> nat list" where
  "leading_digits R [] = []"
| "leading_digits R (c # cs) =
     (case digit_value R c of None \<Rightarrow> [] | Some d \<Rightarrow> d # leading_digits R cs)"

definition digits_value :: "nat \<Rightarrow> nat list \<Rightarrow> nat" where
  "digits_value R ds = foldl (\<lambda>acc d. acc * R + d) 0 ds"

text \<open>
  \<open>parseInt(string)\<close> with no radix argument: skip leading white space, read an optional
  sign, read \<open>0x\<close>/\<open>0X\<close> as the hexadecimal prefix, then take the longest prefix of digits;
  none at all is \<open>NaN\<close>. The result is the integer that the digits denote (the language
  rounds it to the nearest Number when it lies beyond \<open>2 ^ 53\<close>).
\<close>

definition parseInt :: "string \<Rightarrow> jsnum" where
  "parseInt inputString =
     (let S = dropWhile is_whitespace inputString;
          sign = (if S \<noteq> [] \<and> hd S = CHR ''-'' then - 1 else (1::int));
          S1 = (if S \<noteq> [] \<and> (hd S = CHR ''+'' \<or> hd S = CHR ''-'') then tl S else S);
          hex = (take 2 S1 = ''0x'' \<or> take 2 S1 = ''0X'');
          R = (if hex then 16 else 10);
          S2 = (if hex then drop 2 S1 else S1);
          Z = leading_digits R S2
      in if Z = [] then NaN else Num (sign * int (digits_value R Z)))"

section \<open>The game object, the page and the browser\<close>

text \<open>The functions the game hands to \<open>setTimeout\<close>.\<close>

datatype callback =
    AddPulse
  | AnimateTimerBar
  | HandleTimeUp
  | StartNewRound
  | EndGame
  | RemoveShake
  | HideFeedback

record game =
  \<comment> \<open>fields of \<open>ColorMatchGame\<close>\<close>
  isPlaying :: bool
  currentScore :: int
  gameTimer :: "nat option"
  currentTimeLimit :: int
  highScore :: jsnum
  currentWord :: "string option"
  currentFontColor :: "string option"
  correctAnswer :: "string option"
  \<comment> \<open>the browser: storage entry \<open>colorMatchHighScore\<close>, the values \<open>Math.random()\<close> will
      return, the pending timeouts as (handle, delay, callback), the next handle\<close>
  localStorage :: "string option"
  random :: "real stream"
  timeouts :: "(nat \<times> int \<times> callback) list"
  nextTimeoutId :: nat
  \<comment> \<open>the page\<close>
  gameArea_playing :: bool
  gameArea_shake :: bool
  colorWord_text :: "string option"
  colorWord_color :: "string option"
  colorWord_pulse :: bool
  currentScoreEl_text :: int
  highScoreEl_text :: jsnum
  finalScoreEl_text :: int
  timerBar_transition :: string
  timerBar_width :: string
  gameOverScreen_display :: string
  highScoreMessage_display :: string
  feedback_text :: string
  feedback_type :: string
  feedback_show :: bool
  buttons_disabled :: bool

definition minTimeLimit :: int where "minTimeLimit = 800"
definition timeDecrement :: int where "timeDecrement = 100"
definition colors :: "string list" where "colors = [''red'', ''blue'', ''green'', ''yellow'']"
definition colorNames :: "string list" where
  "colorNames = [''RED'', ''BLUE'', ''GREEN'', ''YELLOW'']"

subsection \<open>Browser services\<close>

definition Math_random :: "game \<Rightarrow> real \<times> game" where
  "Math_random s = (shd (random s), s\<lparr>random := stl (random s)\<rparr>)"

definition setTimeout :: "callback \<Rightarrow> int \<Rightarrow> game \<Rightarrow> nat \<times> game" where
  "setTimeout cb ms s =
     (nextTimeoutId s,
      s\<lparr>timeouts := timeouts s @ [(nextTimeoutId s, ms, cb)],
        nextTimeoutId := nextTimeoutId s + 1\<rparr>)"

definition clearTimeout :: "nat option \<Rightarrow> game \<Rightarrow> game" where
  "clearTimeout h s = s\<lparr>timeouts := filter (\<lambda>t. Some (fst t) \<noteq> h) (timeouts s)\<rparr>"

section \<open>Methods of ColorMatchGame\<close>

definition updateHighScoreDisplay :: "game \<Rightarrow> game" where
  "updateHighScoreDisplay s = s\<lparr>highScoreEl_text := highScore s\<rparr>"

definition updateCurrentScoreDisplay :: "game \<Rightarrow> game" where
  "updateCurrentScoreDisplay s = s\<lparr>currentScoreEl_text := currentScore s\<rparr>"

definition loadHighScore :: "game \<Rightarrow> game" where
  "loadHighScore s =
     (let savedHighScore = localStorage s
      in updateHighScoreDisplay
           (s\<lparr>highScore := (case savedHighScore of
                               None \<Rightarrow> Num 0
                             | Some str \<Rightarrow> if str \<noteq> [] then parseInt str else Num 0)\<rparr>))"

definition saveHighScore :: "game \<Rightarrow> game" where
  "saveHighScore s = s\<lparr>localStorage := Some (number_toString (highScore s))\<rparr>"

text \<open>
  The \<open>do ... while (fontColorIndex === wordIndex)\<close> loop of \<open>generateRoundData\<close>. It draws
  at least once and has no bound on the number of draws, so it is a partial function:
  \<open>None\<close> is the loop that never leaves.
\<close>

partial_function (option) drawFontColorIndex :: "int \<Rightarrow> game \<Rightarrow> (int \<times> game) option" where
  "drawFontColorIndex wordIndex s =
     (let (r, s1) = Math_random s;
          fontColorIndex = \<lfloor>r * of_nat (length colors)\<rfloor>
      in if fontColorIndex = wordIndex then drawFontColorIndex wordIndex s1
         else Some (fontColorIndex, s1))"

definition generateRoundData :: "game \<Rightarrow> game option" where
  "generateRoundData s =
     (let (r, s1) = Math_random s;
          wordIndex = \<lfloor>r * of_nat (length colorNames)\<rfloor>;
          s2 = s1\<lparr>currentWord := array_get colorNames wordIndex\<rparr>
      in case drawFontColorIndex wordIndex s2 of
           None \<Rightarrow> None
         | Some (fontColorIndex, s3) \<Rightarrow>
             (let s4 = s3\<lparr>currentFontColor := array_get colors fontColorIndex\<rparr>
              in Some (s4\<lparr>correctAnswer := currentFontColor s4\<rparr>)))"

definition updateWordDisplay :: "game \<Rightarrow> game" where
  "updateWordDisplay s =
     snd (setTimeout AddPulse 10
            (s\<lparr>colorWord_text := currentWord s,
               colorWord_color := currentFontColor s,
               colorWord_pulse := False\<rparr>))"

definition enableColorButtons :: "game \<Rightarrow> game" where
  "enableColorButtons s = s\<lparr>buttons_disabled := False\<rparr>"

definition disableColorButtons :: "game \<Rightarrow> game" where
  "disableColorButtons s = s\<lparr>buttons_disabled := True\<rparr>"

definition startTimer :: "game \<Rightarrow> game" where
  "startTimer s =
     (let s1 = s\<lparr>timerBar_transition := ''none'', timerBar_width := ''100%''\<rparr>;
          s2 = snd (setTimeout AnimateTimerBar 50 s1);
          (h, s3) = setTimeout HandleTimeUp (currentTimeLimit s2) s2
      in s3\<lparr>gameTimer := Some h\<rparr>)"

definition startNewRound :: "game \<Rightarrow> game option" where
  "startNewRound s =
     (if \<not> isPlaying s then Some s
      else case generateRoundData s of
             None \<Rightarrow> None
           | Some s1 \<Rightarrow> Some (startTimer (enableColorButtons (updateWordDisplay s1))))"

definition startGame :: "game \<Rightarrow> game option" where
  "startGame s =
     startNewRound
       (updateCurrentScoreDisplay
          (s\<lparr>isPlaying := True, currentScore := 0, currentTimeLimit := 3000,
             gameArea_playing := True, gameOverScreen_display := ''none''\<rparr>))"

text \<open>
  \<open>playSound\<close> rewinds and plays an audio element and swallows every failure; it touches
  neither the game object nor the part of the page modelled here.
\<close>

datatype sound = CorrectSound | WrongSound

definition playSound :: "sound \<Rightarrow> game \<Rightarrow> game" where
  "playSound audioElement s = s"

definition showFeedback :: "string \<Rightarrow> string \<Rightarrow> game \<Rightarrow> game" where
  "showFeedback message type s =
     snd (setTimeout HideFeedback 1000
            (s\<lparr>feedback_text := message, feedback_type := type, feedback_show := True\<rparr>))"

definition handleCorrectAnswer :: "game \<Rightarrow> game" where
  "handleCorrectAnswer s =
     (let s1 = updateCurrentScoreDisplay (s\<lparr>currentScore := currentScore s + 10\<rparr>);
          s2 = playSound CorrectSound s1;
          s3 = showFeedback ''Correct!'' ''correct'' s2;
          s4 = s3\<lparr>currentTimeLimit := max minTimeLimit (currentTimeLimit s3 - timeDecrement)\<rparr>
      in snd (setTimeout StartNewRound 1000 s4))"

definition handleIncorrectAnswer :: "game \<Rightarrow> game" where
  "handleIncorrectAnswer s =
     (let s1 = playSound WrongSound s;
          s2 = showFeedback ''Wrong!'' ''incorrect'' s1;
          s3 = s2\<lparr>gameArea_shake := True\<rparr>;
          s4 = snd (setTimeout RemoveShake 500 s3)
      in snd (setTimeout EndGame 1500 s4))"

definition handleTimeUp :: "game \<Rightarrow> game" where
  "handleTimeUp s =
     (let s1 = playSound WrongSound s;
          s2 = showFeedback ''Time's Up!'' ''incorrect'' s1;
          s3 = disableColorButtons s2
      in snd (setTimeout EndGame 1500 s3))"

definition handleColorClick :: "string \<Rightarrow> game \<Rightarrow> game" where
  "handleColorClick selectedColor s =
     (if \<not> isPlaying s then s
      else let s1 = clearTimeout (gameTimer s) s;
               s2 = disableColorButtons s1
           in if Some selectedColor = correctAnswer s2 then handleCorrectAnswer s2
              else handleIncorrectAnswer s2)"

definition showGameOverScreen :: "bool \<Rightarrow> game \<Rightarrow> game" where
  "showGameOverScreen isNewHighScore s =
     s\<lparr>finalScoreEl_text := currentScore s,
       highScoreMessage_display := (if isNewHighScore then ''block'' else ''none''),
       gameOverScreen_display := ''flex''\<rparr>"

definition endGame :: "game \<Rightarrow> game" where
  "endGame s =
     (let s1 = s\<lparr>isPlaying := False\<rparr>;
          s2 = clearTimeout (gameTimer s1) s1;
          s3 = s2\<lparr>gameArea_playing := False\<rparr>
      in if js_gt (currentScore s3) (highScore s3)
         then showGameOverScreen True
                (updateHighScoreDisplay (saveHighScore (s3\<lparr>highScore := Num (currentScore s3)\<rparr>)))
         else showGameOverScreen False s3)"

definition exitGame :: "game \<Rightarrow> game" where
  "exitGame s =
     (if \<not> isPlaying s then s
      else let s1 = s\<lparr>isPlaying := False\<rparr>;
               s2 = clearTimeout (gameTimer s1) s1;
               s3 = s2\<lparr>gameArea_playing := False,
                       colorWord_text := Some ''READY?'', colorWord_color := Some ''#333'',
                       timerBar_width := ''100%'', timerBar_transition := ''none''\<rparr>;
               s4 = updateCurrentScoreDisplay (s3\<lparr>currentScore := 0\<rparr>)
           in showFeedback ''Game Exited'' ''incorrect'' s4)"

definition returnToMainMenu :: "game \<Rightarrow> game" where
  "returnToMainMenu s =
     (let s1 = s\<lparr>gameOverScreen_display := ''none'',
                  colorWord_text := Some ''READY?'', colorWord_color := Some ''#333'',
                  timerBar_width := ''100%'', timerBar_transition := ''none''\<rparr>;
          s2 = updateCurrentScoreDisplay (s1\<lparr>currentScore := 0\<rparr>)
      in s2\<lparr>isPlaying := False, gameArea_playing := False\<rparr>)"

definition restartGame :: "game \<Rightarrow> game option" where
  "restartGame s = startGame (s\<lparr>gameOverScreen_display := ''none''\<rparr>)"

definition keyMap :: "string \<Rightarrow> string option" where
  "keyMap = map_of
     [(''KeyR'', ''red''), (''Digit1'', ''red''),
      (''KeyB'', ''blue''), (''Digit2'', ''blue''),
      (''KeyG'', ''green''), (''Digit3'', ''green''),
      (''KeyY'', ''yellow''), (''Digit4'', ''yellow'')]"

text \<open>\<open>handleKeyPress\<close>, on the \<open>code\<close> of the keyboard event.\<close>

definition handleKeyPress :: "string \<Rightarrow> game \<Rightarrow> game option" where
  "handleKeyPress code s =
     (if \<not> isPlaying s
      then (if code = ''Space'' \<or> code = ''Enter''
            then (if \<not> isPlaying s then startGame s else Some s)
            else Some s)
      else let s1 = (case keyMap code of None \<Rightarrow> s | Some c \<Rightarrow> handleColorClick c s)
           in if code = ''Escape'' then Some (exitGame s1) else Some s1)"

text \<open>The constructor, on the page as the browser has loaded it.\<close>

definition constructor :: "game \<Rightarrow> game" where
  "constructor page =
     loadHighScore
       (page\<lparr>isPlaying := False, currentScore := 0, gameTimer := None,
             currentTimeLimit := 3000,
             currentWord := Some [], currentFontColor := Some [], correctAnswer := Some []\<rparr>)"

section \<open>The event loop\<close>

text \<open>
  Everything after the constructor runs from a listener or from a timeout. A timeout that
  fires leaves the pending list and runs its callback. A disabled button receives no click.
\<close>

datatype event =
    StartClick
  | ExitClick
  | RestartClick
  | MenuClick
  | ColorClick string
  | KeyDown string
  | TimeoutFires nat

definition runCallback :: "callback \<Rightarrow> game \<Rightarrow> game option" where
  "runCallback cb s =
     (case cb of
        AddPulse \<Rightarrow> Some (s\<lparr>colorWord_pulse := True\<rparr>)
      | AnimateTimerBar \<Rightarrow>
          Some (s\<lparr>timerBar_transition :=
                     ''width '' @ number_toString (Num (currentTimeLimit s)) @ ''ms linear'',
                   timerBar_width := ''0%''\<rparr>)
      | HandleTimeUp \<Rightarrow> Some (handleTimeUp s)
      | StartNewRound \<Rightarrow> startNewRound s
      | EndGame \<Rightarrow> Some (endGame s)
      | RemoveShake \<Rightarrow> Some (s\<lparr>gameArea_shake := False\<rparr>)
      | HideFeedback \<Rightarrow> Some (s\<lparr>feedback_show := False\<rparr>))"

definition fireTimeout :: "nat \<Rightarrow> game \<Rightarrow> game option" where
  "fireTimeout h s =
     (case find (\<lambda>t. fst t = h) (timeouts s) of
        None \<Rightarrow> Some s
      | Some (_, _, cb) \<Rightarrow>
          runCallback cb (s\<lparr>timeouts := filter (\<lambda>t. fst t \<noteq> h) (timeouts s)\<rparr>))"

definition dispatch :: "event \<Rightarrow> game \<Rightarrow> game option" where
  "dispatch e s =
     (case e of
        StartClick \<Rightarrow> startGame s
      | ExitClick \<Rightarrow> Some (exitGame s)
      | RestartClick \<Rightarrow> restartGame s
      | MenuClick \<Rightarrow> Some (returnToMainMenu s)
      | ColorClick color \<Rightarrow>
          (if color \<in> set colors \<and> \<not> buttons_disabled s then Some (handleColorClick color s)
           else Some s)
      | KeyDown code \<Rightarrow> handleKeyPress code s
      | TimeoutFires h \<Rightarrow> fireTimeout h s)"

fun run :: "event list \<Rightarrow> game \<Rightarrow> game option" where
  "run [] s = Some s"
| "run (e # es) s = (case dispatch e s of None \<Rightarrow> None | Some s1 \<Rightarrow> run es s1)"

inductive reachable :: "game \<Rightarrow> bool" where
  init: "reachable (constructor page)"
| step: "reachable s \<Longrightarrow> dispatch e s = Some s1 \<Longrightarrow> reachable s1"

text \<open>A page freshly loaded: nothing pending, nothing shown, buttons enabled.\<close>

definition fresh_page :: "string option \<Rightarrow> real stream \<Rightarrow> game" where
  "fresh_page stored rnd =
     \<lparr>isPlaying = False, currentScore = 0, gameTimer = None, currentTimeLimit = 0,
      highScore = NaN, currentWord = None, currentFontColor = None, correctAnswer = None,
      localStorage = stored, random = rnd, timeouts = [], nextTimeoutId = 1,
      gameArea_playing = False, gameArea_shake = False,
      colorWord_text = Some ''READY?'', colorWord_color = None, colorWord_pulse = False,
      currentScoreEl_text = 0, highScoreEl_text = Num 0, finalScoreEl_text = 0,
      timerBar_transition = [], timerBar_width = [],
      gameOverScreen_display = ''none'', highScoreMessage_display = ''none'',
      feedback_text = [], feedback_type = [], feedback_show = False,
      buttons_disabled = False\<rparr>"

section \<open>Classifying events\<close>

text \<open>The colour that an event hands to \<open>handleColorClick\<close>, if it hands one.\<close>

definition answered_color :: "event \<Rightarrow> game \<Rightarrow> string option" where
  "answered_color e s =
     (case e of
        ColorClick color \<Rightarrow>
          if color \<in> set colors \<and> \<not> buttons_disabled s then Some color else None
      | KeyDown code \<Rightarrow> if isPlaying s then keyMap code else None
      | _ \<Rightarrow> None)"

text \<open>The event is an answer that \<open>handleColorClick\<close> accepts and finds correct.\<close>

definition is_correct_answer :: "event \<Rightarrow> game \<Rightarrow> bool" where
  "is_correct_answer e s =
     (case answered_color e s of
        None \<Rightarrow> False
      | Some color \<Rightarrow> isPlaying s \<and> Some color = correctAnswer s)"

text \<open>The event calls \<open>startGame\<close>.\<close>

definition is_start :: "event \<Rightarrow> game \<Rightarrow> bool" where
  "is_start e s =
     (case e of
        StartClick \<Rightarrow> True
      | RestartClick \<Rightarrow> True
      | KeyDown code \<Rightarrow> \<not> isPlaying s \<and> (code = ''Space'' \<or> code = ''Enter'')
      | _ \<Rightarrow> False)"

text \<open>The event runs \<open>exitGame\<close> past its guard, or \<open>returnToMainMenu\<close>.\<close>

definition is_leave :: "event \<Rightarrow> game \<Rightarrow> bool" where
  "is_leave e s =
     (case e of
        ExitClick \<Rightarrow> isPlaying s
      | MenuClick \<Rightarrow> True
      | KeyDown code \<Rightarrow> isPlaying s \<and> code = ''Escape''
      | _ \<Rightarrow> False)"

text \<open>The number of accepted correct answers along a run of events.\<close>

fun correct_answers :: "event list \<Rightarrow> game \<Rightarrow> nat" where
  "correct_answers [] s = 0"
| "correct_answers (e # es) s =
     (case dispatch e s of
        None \<Rightarrow> 0
      | Some s1 \<Rightarrow> (if is_correct_answer e s then 1 else 0) + correct_answers es s1)"

text \<open>No event of the run starts a new game.\<close>

fun no_start :: "event list \<Rightarrow> game \<Rightarrow> bool" where
  "no_start [] s = True"
| "no_start (e # es) s =
     (\<not> is_start e s \<and> (case dispatch e s of None \<Rightarrow> True | Some s1 \<Rightarrow> no_start es s1))"

text \<open>Strings made of decimal digits only.\<close>

definition all_digits :: "string \<Rightarrow> bool" where
  "all_digits cs = (\<forall>c\<in>set cs. \<exists>d<10. c = digit_char d)"

section \<open>Round generation\<close>

text \<open>
  What the loop returns, when it returns: the first draw whose index is not the word's,
  with exactly the draws up to it consumed.
\<close>

lemma drawFontColorIndex_Some:
  assumes "drawFontColorIndex w s = Some y"
  shows "fst y \<noteq> w \<and> (\<exists>n. snd y = s\<lparr>random := sdrop (Suc n) (random s)\<rparr> \<and>
        fst y = \<lfloor>(random s !! n) * of_nat (length colors)\<rfloor> \<and>
        (\<forall>k<n. \<lfloor>(random s !! k) * of_nat (length colors)\<rfloor> = w))"
proof (rule drawFontColorIndex.raw_induct
    [where P = "\<lambda>w s y. fst y \<noteq> w \<and> (\<exists>n. snd y = s\<lparr>random := sdrop (Suc n) (random s)\<rparr> \<and>
        fst y = \<lfloor>(random s !! n) * of_nat (length colors)\<rfloor> \<and>
        (\<forall>k<n. \<lfloor>(random s !! k) * of_nat (length colors)\<rfloor> = w))", OF _ assms], goal_cases)
  case (1 rec w s y)
  show ?case
  proof (cases "\<lfloor>shd (random s) * of_nat (length colors)\<rfloor> = w")
    case True
    with 1(2) have "rec w (s\<lparr>random := stl (random s)\<rparr>) = Some y"
      by (simp add: Math_random_def)
    from 1(1)[OF this] obtain n where n: "fst y \<noteq> w"
      "snd y = s\<lparr>random := sdrop (Suc n) (stl (random s))\<rparr>"
      "fst y = \<lfloor>(stl (random s) !! n) * of_nat (length colors)\<rfloor>"
      "\<forall>k<n. \<lfloor>(stl (random s) !! k) * of_nat (length colors)\<rfloor> = w"
      by auto
    have "\<forall>k<Suc n. \<lfloor>(random s !! k) * of_nat (length colors)\<rfloor> = w"
      using True n(4) by (auto simp: less_Suc_eq_0_disj)
    with n show ?thesis
      by (intro conjI exI[of _ "Suc n"]) auto
  next
    case False
    with 1(2) show ?thesis
      by (intro conjI exI[of _ 0]) (auto simp: Math_random_def)
  qed
qed

lemma drawFontColorIndex_total:
  "\<lfloor>(random s !! n) * of_nat (length colors)\<rfloor> \<noteq> w \<Longrightarrow> drawFontColorIndex w s \<noteq> None"
proof (induction n arbitrary: s)
  case 0
  then show ?case by (subst drawFontColorIndex.simps) (simp add: Math_random_def)
next
  case (Suc n)
  have "drawFontColorIndex w (s\<lparr>random := stl (random s)\<rparr>) \<noteq> None"
    by (rule Suc.IH) (use Suc.prems in simp)
  then show ?case
    by (subst drawFontColorIndex.simps) (simp add: Math_random_def Let_def)
qed

lemma generateRoundData_SomeD:
  assumes "generateRoundData s = Some s'"
  shows "\<exists>f n. f \<noteq> \<lfloor>shd (random s) * 4\<rfloor> \<and> f = \<lfloor>(random s !! Suc n) * 4\<rfloor>
           \<and> (\<forall>k<n. \<lfloor>(random s !! Suc k) * 4\<rfloor> = \<lfloor>shd (random s) * 4\<rfloor>)
           \<and> s' = s\<lparr>currentWord := array_get colorNames \<lfloor>shd (random s) * 4\<rfloor>,
                    currentFontColor := array_get colors f,
                    correctAnswer := array_get colors f,
                    random := sdrop (Suc (Suc n)) (random s)\<rparr>"
proof -
  let ?w = "\<lfloor>shd (random s) * 4\<rfloor>"
  let ?s2 = "s\<lparr>random := stl (random s), currentWord := array_get colorNames ?w\<rparr>"
  have len: "length colorNames = 4" "length colors = 4"
    by (simp_all add: colorNames_def colors_def)
  from assms obtain y where y: "drawFontColorIndex ?w ?s2 = Some y"
    and s': "s' = (snd y)\<lparr>currentFontColor := array_get colors (fst y),
                           correctAnswer := array_get colors (fst y)\<rparr>"
    by (auto simp: generateRoundData_def Math_random_def len Let_def split: option.splits)
  from drawFontColorIndex_Some[OF y] obtain n where n: "fst y \<noteq> ?w"
    "snd y = ?s2\<lparr>random := sdrop (Suc n) (random ?s2)\<rparr>"
    "fst y = \<lfloor>(random ?s2 !! n) * 4\<rfloor>"
    "\<forall>k<n. \<lfloor>(random ?s2 !! k) * 4\<rfloor> = ?w"
    by (auto simp: len)
  show ?thesis
    using n s' by (intro exI[of _ "fst y"] exI[of _ n]) simp
qed

text \<open>
  C1. Every round that \<open>generateRoundData\<close> produces has a word index and a font-colour
  index that differ: the word is \<open>colorNames[wordIndex]\<close>, the font colour is
  \<open>colors[fontColorIndex]\<close>, the font colour is never \<open>colors[wordIndex]\<close> (for a draw
  in \<open>[0, 1)\<close>, which is what \<open>Math.random()\<close> returns), and \<open>correctAnswer\<close> is the font
  colour.
\<close>

theorem generateRoundData_word_never_in_own_color:
  assumes "generateRoundData s = Some s'"
  shows "\<exists>wordIndex fontColorIndex n.
           wordIndex = \<lfloor>shd (random s) * 4\<rfloor>
         \<and> fontColorIndex = \<lfloor>(random s !! Suc n) * 4\<rfloor>
         \<and> wordIndex \<noteq> fontColorIndex
         \<and> currentWord s' = array_get colorNames wordIndex
         \<and> currentFontColor s' = array_get colors fontColorIndex
         \<and> correctAnswer s' = currentFontColor s'
         \<and> (0 \<le> shd (random s) \<and> shd (random s) < 1 \<longrightarrow>
              currentFontColor s' \<noteq> array_get colors wordIndex)"
proof -
  let ?w = "\<lfloor>shd (random s) * 4\<rfloor>"
  from generateRoundData_SomeD[OF assms] obtain f n where
    f: "f \<noteq> ?w" "f = \<lfloor>(random s !! Suc n) * 4\<rfloor>" and
    s': "s' = s\<lparr>currentWord := array_get colorNames ?w,
                  currentFontColor := array_get colors f,
                  correctAnswer := array_get colors f,
                  random := sdrop (Suc (Suc n)) (random s)\<rparr>"
    by blast
  have distinct: "0 \<le> shd (random s) \<and> shd (random s) < 1 \<longrightarrow>
      array_get colors f \<noteq> array_get colors ?w"
  proof (intro impI, elim conjE)
    assume r: "0 \<le> shd (random s)" "shd (random s) < 1"
    then have "0 \<le> ?w" "?w < 4" by (simp_all add: floor_less_iff)
    then have "?w = 0 \<or> ?w = 1 \<or> ?w = 2 \<or> ?w = 3" by arith
    moreover have "f < 0 \<or> f = 0 \<or> f = 1 \<or> f = 2 \<or> f = 3 \<or> 4 \<le> f" by arith
    ultimately show "array_get colors f \<noteq> array_get colors ?w"
      using f(1) r by (auto simp: array_get_def colors_def)
  qed
  show ?thesis
    using f s' distinct
    by (intro exI[of _ ?w] exI[of _ f] exI[of _ n]) simp
qed

theorem generateRoundData_word_never_in_own_color_witness:
  "generateRoundData (fresh_page None (3/8 ## 1/4 ## 7/8 ## sconst 0)) =
     Some ((fresh_page None (3/8 ## 1/4 ## 7/8 ## sconst 0))
             \<lparr>currentWord := Some ''BLUE'', currentFontColor := Some ''yellow'',
              correctAnswer := Some ''yellow'', random := sconst 0\<rparr>)
   \<and> (\<exists>wordIndex fontColorIndex. wordIndex \<noteq> fontColorIndex
         \<and> Some ''BLUE'' = array_get colorNames wordIndex
         \<and> Some ''yellow'' = array_get colors fontColorIndex
         \<and> Some ''yellow'' \<noteq> array_get colors wordIndex)"
proof -
  let ?s = "fresh_page None (3/8 ## 1/4 ## 7/8 ## sconst 0)"
  let ?s' = "?s\<lparr>currentWord := Some ''BLUE'', currentFontColor := Some ''yellow'',
              correctAnswer := Some ''yellow'', random := sconst 0\<rparr>"
  have eq: "generateRoundData ?s = Some ?s'"
    by (simp add: generateRoundData_def Math_random_def drawFontColorIndex.simps
          fresh_page_def colors_def colorNames_def array_get_def Let_def)
  have r: "0 \<le> shd (random ?s) \<and> shd (random ?s) < 1"
    by (simp add: fresh_page_def)
  from generateRoundData_word_never_in_own_color[OF eq] r
  obtain wordIndex fontColorIndex where "wordIndex \<noteq> fontColorIndex"
    "currentWord ?s' = array_get colorNames wordIndex"
    "currentFontColor ?s' = array_get colors fontColorIndex"
    "currentFontColor ?s' \<noteq> array_get colors wordIndex"
    by blast
  then have "\<exists>wordIndex fontColorIndex. wordIndex \<noteq> fontColorIndex
         \<and> Some ''BLUE'' = array_get colorNames wordIndex
         \<and> Some ''yellow'' = array_get colors fontColorIndex
         \<and> Some ''yellow'' \<noteq> array_get colors wordIndex"
    by (intro exI[of _ wordIndex] exI[of _ fontColorIndex]) simp
  with eq show ?thesis by (rule conjI)
qed


text \<open>
  C9, as stated, fails: on a random source that returns the word's index at every draw the
  loop of \<open>generateRoundData\<close> never leaves.
\<close>

theorem generateRoundData_stuck_source_never_returns:
  "generateRoundData (fresh_page None (sconst 0)) = None"
proof (cases "generateRoundData (fresh_page None (sconst 0))")
  case None
  then show ?thesis .
next
  case (Some s')
  from generateRoundData_SomeD[OF this] show ?thesis
    by (auto simp: fresh_page_def)
qed

text \<open>
  C9, amended. Round generation returns exactly when some draw after the first has an
  index other than the word's.
\<close>

theorem generateRoundData_returns_iff_some_draw_differs:
  "generateRoundData s \<noteq> None \<longleftrightarrow>
     (\<exists>n. \<lfloor>(random s !! Suc n) * 4\<rfloor> \<noteq> \<lfloor>shd (random s) * 4\<rfloor>)"
proof
  assume "generateRoundData s \<noteq> None"
  then obtain s' where "generateRoundData s = Some s'" by auto
  from generateRoundData_SomeD[OF this] show "\<exists>n. \<lfloor>(random s !! Suc n) * 4\<rfloor> \<noteq> \<lfloor>shd (random s) * 4\<rfloor>"
    by metis
next
  assume "\<exists>n. \<lfloor>(random s !! Suc n) * 4\<rfloor> \<noteq> \<lfloor>shd (random s) * 4\<rfloor>"
  then obtain n where n: "\<lfloor>(random s !! Suc n) * 4\<rfloor> \<noteq> \<lfloor>shd (random s) * 4\<rfloor>" ..
  let ?w = "\<lfloor>shd (random s) * 4\<rfloor>"
  let ?s2 = "s\<lparr>random := stl (random s), currentWord := array_get colorNames ?w\<rparr>"
  have len: "length colorNames = 4" "length colors = 4"
    by (simp_all add: colorNames_def colors_def)
  have "drawFontColorIndex ?w ?s2 \<noteq> None"
    by (rule drawFontColorIndex_total[of _ n]) (use n in \<open>simp add: len\<close>)
  then show "generateRoundData s \<noteq> None"
    by (auto simp: generateRoundData_def Math_random_def len Let_def split: option.splits)
qed

section \<open>The persisted high score\<close>

lemma digit_value_digit_char: "d < 10 \<Longrightarrow> digit_value 10 (digit_char d) = Some d"
  by (simp add: digit_value_def digit_char_def Let_def)

lemma digit_char_numeral:
  "digit_char 0 = CHR ''0''" "digit_char 1 = CHR ''1''" "digit_char 2 = CHR ''2''"
  "digit_char 3 = CHR ''3''" "digit_char 4 = CHR ''4''" "digit_char 5 = CHR ''5''"
  "digit_char 6 = CHR ''6''" "digit_char 7 = CHR ''7''" "digit_char 8 = CHR ''8''"
  "digit_char 9 = CHR ''9''" "digit_char (Suc 0) = CHR ''1''"
  by code_simp+

lemma is_digit_char_props:
  assumes "d < 10"
  shows "\<not> is_whitespace (digit_char d)" "digit_char d \<noteq> CHR ''-''" "digit_char d \<noteq> CHR ''+''"
    "digit_char d \<noteq> CHR ''x''" "digit_char d \<noteq> CHR ''X''"
proof -
  have v: "(of_char (digit_char d) :: nat) = 48 + d"
    using assms by (simp add: digit_char_def)
  show "\<not> is_whitespace (digit_char d)"
    using assms by (simp add: is_whitespace_def v)
  show "digit_char d \<noteq> CHR ''-''" "digit_char d \<noteq> CHR ''+''"
    "digit_char d \<noteq> CHR ''x''" "digit_char d \<noteq> CHR ''X''"
    using v assms by auto
qed

lemma decimal_all_digits: "all_digits (decimal n) \<and> decimal n \<noteq> []"
proof (induction n rule: decimal.induct)
  case (1 n)
  show ?case
  proof (cases "n < 10")
    case True
    then show ?thesis by (subst (1 2) decimal.simps) (auto simp: all_digits_def)
  next
    case False
    with 1 have "all_digits (decimal (n div 10))" by simp
    moreover have "n mod 10 < 10" by simp
    ultimately show ?thesis
      using False by (subst (1 2) decimal.simps) (auto simp: all_digits_def intro: exI[of _ "n mod 10"])
  qed
qed

lemma leading_digits_append:
  "all_digits xs \<Longrightarrow> leading_digits 10 (xs @ ys) = leading_digits 10 xs @ leading_digits 10 ys"
  by (induction xs) (auto simp: all_digits_def digit_value_digit_char)

lemma digits_value_snoc: "digits_value R (ds @ [d]) = digits_value R ds * R + d"
  by (simp add: digits_value_def)

lemma leading_digits_decimal:
  "leading_digits 10 (decimal n) \<noteq> [] \<and> digits_value 10 (leading_digits 10 (decimal n)) = n"
proof (induction n rule: decimal.induct)
  case (1 n)
  show ?case
  proof (cases "n < 10")
    case True
    then show ?thesis
      by (subst (1 2) decimal.simps) (simp add: digit_value_digit_char digits_value_def)
  next
    case False
    with 1 have IH: "digits_value 10 (leading_digits 10 (decimal (n div 10))) = n div 10" by simp
    have split: "leading_digits 10 (decimal n) =
        leading_digits 10 (decimal (n div 10)) @ [n mod 10]"
      using False decimal_all_digits[of "n div 10"]
      by (subst decimal.simps) (simp add: leading_digits_append digit_value_digit_char)
    show ?thesis
      unfolding split by (simp add: digits_value_snoc IH)
  qed
qed

lemma decimal_head:
  obtains d cs where "decimal n = digit_char d # cs" "d < 10" "all_digits cs"
proof -
  from decimal_all_digits[of n] obtain c cs where cs: "decimal n = c # cs"
    by (cases "decimal n") auto
  with decimal_all_digits[of n] obtain d where "d < 10" "c = digit_char d" "all_digits cs"
    by (auto simp: all_digits_def)
  with cs that show thesis by blast
qed

lemma parseInt_decimal: "parseInt (decimal n) = Num (int n)"
proof -
  obtain d cs where dec: "decimal n = digit_char d # cs" and d: "d < 10" and cs: "all_digits cs"
    by (rule decimal_head)
  have nohex: "take 2 (decimal n) \<noteq> ''0x''" "take 2 (decimal n) \<noteq> ''0X''"
    using cs is_digit_char_props(4,5) unfolding dec
    by (cases cs; auto simp: all_digits_def)+
  have "dropWhile is_whitespace (decimal n) = decimal n"
    unfolding dec using is_digit_char_props(1)[OF d] by simp
  moreover have "hd (decimal n) \<noteq> CHR ''-''" "hd (decimal n) \<noteq> CHR ''+''"
    unfolding dec using is_digit_char_props(2,3)[OF d] by simp_all
  ultimately show ?thesis
    using nohex leading_digits_decimal[of n]
    by (simp add: parseInt_def Let_def)
qed

lemma parseInt_minus_decimal: "parseInt (CHR ''-'' # decimal n) = Num (- int n)"
proof -
  obtain d cs where dec: "decimal n = digit_char d # cs" and d: "d < 10" and cs: "all_digits cs"
    by (rule decimal_head)
  have nohex: "take 2 (decimal n) \<noteq> ''0x''" "take 2 (decimal n) \<noteq> ''0X''"
    using cs is_digit_char_props(4,5) unfolding dec
    by (cases cs; auto simp: all_digits_def)+
  have "\<not> is_whitespace CHR ''-''" by (simp add: is_whitespace_def)
  then show ?thesis
    using nohex leading_digits_decimal[of n]
    by (simp add: parseInt_def Let_def)
qed

lemma number_toString_below_exponent:
  assumes "\<bar>n\<bar> < 10 ^ 21"
  shows "number_toString (Num n) =
     (if n < 0 then CHR ''-'' # decimal (nat (- n)) else decimal (nat n))"
proof (cases "n < 0")
  case True
  then have "nat \<bar>n\<bar> = nat (- n)" by simp
  moreover from assms True have "nat (- n) < 10 ^ 21" by simp
  ultimately show ?thesis using True by (simp add: Let_def)
next
  case False
  then have "nat \<bar>n\<bar> = nat n" by simp
  moreover from assms False have "nat n < 10 ^ 21" by simp
  ultimately show ?thesis using False by (simp add: Let_def)
qed

lemma parseInt_number_toString_NaN: "parseInt (number_toString NaN) = NaN"
  by (simp add: parseInt_def Let_def is_whitespace_def digit_value_def)

lemma parseInt_number_toString:
  assumes "\<bar>n\<bar> < 10 ^ 21"
  shows "parseInt (number_toString (Num n)) = Num n"
  unfolding number_toString_below_exponent[OF assms]
  using parseInt_decimal[of "nat n"] parseInt_minus_decimal[of "nat (- n)"]
  by simp

lemma number_toString_nonempty: "number_toString x \<noteq> []"
proof (cases x)
  case NaN
  then show ?thesis by simp
next
  case (Num n)
  have "exponent_form m \<noteq> []" for m
    by (simp add: exponent_form_def Let_def)
  with decimal_all_digits Num show ?thesis
    by (auto simp: Let_def)
qed

lemma loadHighScore_highScore:
  "highScore (loadHighScore s) =
     (case localStorage s of None \<Rightarrow> Num 0 | Some str \<Rightarrow> if str \<noteq> [] then parseInt str else Num 0)"
  by (simp add: loadHighScore_def updateHighScoreDisplay_def Let_def)




text \<open>
  C10, as stated, fails: from \<open>10 ^ 21\<close> on \<open>toString\<close> writes exponent notation, of which
  \<open>parseInt\<close> reads the digits before the point or the \<open>e\<close> only. The high score \<open>10 ^ 21\<close>
  is stored as \<open>1e+21\<close> and loaded as 1.
\<close>

theorem saveHighScore_loadHighScore_exponent_form:
  "localStorage (saveHighScore ((fresh_page None (sconst 0))\<lparr>highScore := Num (10 ^ 21)\<rparr>)) =
     Some ''1e+21''
   \<and> highScore
       (loadHighScore
          (fresh_page
             (localStorage
                (saveHighScore ((fresh_page None (sconst 0))\<lparr>highScore := Num (10 ^ 21)\<rparr>)))
             (sconst 0))) = Num 1"
proof -
  have t: "number_toString (Num 1000000000000000000000) = ''1e+21''"
    by (simp add: Let_def exponent_form_def decimal.simps digit_char_numeral)
  have p: "parseInt ''1e+21'' = Num 1" by code_simp
  show ?thesis
    by (simp add: saveHighScore_def loadHighScore_highScore fresh_page_def t p del: number_toString.simps)
qed

text \<open>
  C10, amended. For every natural number \<open>n \<le> 2 ^ 53\<close>, saving the high score \<open>n\<close> stores
  the decimal numeral of \<open>n\<close>, and loading on any page that holds the stored string gives
  the high score \<open>n\<close>.
\<close>

theorem saveHighScore_loadHighScore_roundtrip:
  assumes "n \<le> 2 ^ 53"
  shows "localStorage (saveHighScore (s\<lparr>highScore := Num (int n)\<rparr>)) = Some (decimal n)
    \<and> highScore
        (loadHighScore
           (s'\<lparr>localStorage := localStorage (saveHighScore (s\<lparr>highScore := Num (int n)\<rparr>))\<rparr>)) =
        Num (int n)"
proof -
  have "(2::nat) ^ 53 < 10 ^ 21" by simp
  with assms have small: "\<bar>int n\<bar> < 10 ^ 21"
    by (metis abs_of_nat le_less_trans of_nat_less_iff of_nat_numeral of_nat_power)
  have stored: "localStorage (saveHighScore (s\<lparr>highScore := Num (int n)\<rparr>)) = Some (decimal n)"
    using number_toString_below_exponent[OF small] by (simp add: saveHighScore_def)
  show ?thesis
    unfolding stored using decimal_all_digits[of n]
    by (simp add: loadHighScore_highScore parseInt_decimal)
qed

theorem saveHighScore_loadHighScore_roundtrip_witness:
  "(120::nat) \<le> 2 ^ 53
   \<and> localStorage (saveHighScore ((fresh_page None (sconst 0))\<lparr>highScore := Num 120\<rparr>)) =
       Some ''120''
   \<and> highScore
       (loadHighScore
          ((fresh_page (Some ''abc'') (sconst 0))
             \<lparr>localStorage :=
                localStorage (saveHighScore ((fresh_page None (sconst 0))\<lparr>highScore := Num 120\<rparr>))\<rparr>)) =
       Num 120"
proof -
  have d: "decimal 120 = ''120''" by code_simp
  have b: "(120::nat) \<le> 2 ^ 53" by simp
  note r = saveHighScore_loadHighScore_roundtrip[OF b, of "fresh_page None (sconst 0)"
      "fresh_page (Some ''abc'') (sconst 0)", unfolded d of_nat_numeral]
  show ?thesis
    by (intro conjI) (rule b, rule r[THEN conjunct1], rule r[THEN conjunct2])
qed

section \<open>Score and time limit\<close>

lemmas browser_defs = Math_random_def setTimeout_def clearTimeout_def
lemmas display_defs = updateHighScoreDisplay_def updateCurrentScoreDisplay_def
  updateWordDisplay_def enableColorButtons_def disableColorButtons_def showFeedback_def
  playSound_def showGameOverScreen_def
lemmas answer_defs = handleColorClick_def handleCorrectAnswer_def handleIncorrectAnswer_def
  handleTimeUp_def

text \<open>The fields a method leaves alone.\<close>

lemma startNewRound_frame:
  assumes "startNewRound s = Some s'"
  shows "currentScore s' = currentScore s \<and> currentTimeLimit s' = currentTimeLimit s
    \<and> highScore s' = highScore s \<and> localStorage s' = localStorage s
    \<and> isPlaying s' = isPlaying s"
  using assms
  by (auto simp: startNewRound_def startTimer_def browser_defs display_defs Let_def
      split: if_splits option.splits dest!: generateRoundData_SomeD)

lemma startGame_frame:
  assumes "startGame s = Some s'"
  shows "currentScore s' = 0 \<and> currentTimeLimit s' = 3000
    \<and> highScore s' = highScore s \<and> localStorage s' = localStorage s \<and> isPlaying s'"
  using startNewRound_frame[OF assms[unfolded startGame_def]]
  by (simp add: display_defs)

lemma handleColorClick_frame:
  "currentScore (handleColorClick c s) =
     (if isPlaying s \<and> Some c = correctAnswer s then currentScore s + 10 else currentScore s)"
  "currentTimeLimit (handleColorClick c s) =
     (if isPlaying s \<and> Some c = correctAnswer s then max 800 (currentTimeLimit s - 100)
      else currentTimeLimit s)"
  "highScore (handleColorClick c s) = highScore s"
  "localStorage (handleColorClick c s) = localStorage s"
  "isPlaying (handleColorClick c s) = isPlaying s"
  by (simp_all add: answer_defs browser_defs display_defs Let_def minTimeLimit_def
      timeDecrement_def)

lemma exitGame_frame:
  "currentScore (exitGame s) = (if isPlaying s then 0 else currentScore s)"
  "currentTimeLimit (exitGame s) = currentTimeLimit s"
  "highScore (exitGame s) = highScore s"
  "localStorage (exitGame s) = localStorage s"
  "isPlaying (exitGame s) = False"
  by (simp_all add: exitGame_def browser_defs display_defs Let_def)

lemma returnToMainMenu_frame:
  "currentScore (returnToMainMenu s) = 0"
  "currentTimeLimit (returnToMainMenu s) = currentTimeLimit s"
  "highScore (returnToMainMenu s) = highScore s"
  "localStorage (returnToMainMenu s) = localStorage s"
  "isPlaying (returnToMainMenu s) = False"
  by (simp_all add: returnToMainMenu_def display_defs Let_def)

lemma handleTimeUp_frame:
  "currentScore (handleTimeUp s) = currentScore s"
  "currentTimeLimit (handleTimeUp s) = currentTimeLimit s"
  "highScore (handleTimeUp s) = highScore s"
  "localStorage (handleTimeUp s) = localStorage s"
  "isPlaying (handleTimeUp s) = isPlaying s"
  by (simp_all add: answer_defs browser_defs display_defs Let_def)

lemma endGame_frame:
  "currentScore (endGame s) = currentScore s"
  "currentTimeLimit (endGame s) = currentTimeLimit s"
  "isPlaying (endGame s) = False"
  by (simp_all add: endGame_def saveHighScore_def browser_defs display_defs Let_def)

lemma endGame_highScore:
  "highScore (endGame s) =
     (if js_gt (currentScore s) (highScore s) then Num (currentScore s) else highScore s)"
  "localStorage (endGame s) =
     (if js_gt (currentScore s) (highScore s) then Some (number_toString (Num (currentScore s)))
      else localStorage s)"
  "highScoreMessage_display (endGame s) =
     (if js_gt (currentScore s) (highScore s) then ''block'' else ''none'')"
  by (simp_all add: endGame_def saveHighScore_def browser_defs display_defs Let_def)

lemma fireTimeout_frame:
  assumes "fireTimeout h s = Some s'"
  shows "currentScore s' = currentScore s \<and> currentTimeLimit s' = currentTimeLimit s"
  using assms
  by (auto simp: fireTimeout_def runCallback_def handleTimeUp_frame endGame_frame
      split: option.splits callback.splits dest!: startNewRound_frame)

lemma keyMap_not_start: "keyMap code = Some c \<Longrightarrow> code \<noteq> ''Escape'' \<and> code \<noteq> ''Space'' \<and> code \<noteq> ''Enter''"
  by (auto simp: keyMap_def split: if_splits)

lemma dispatch_currentScore:
  assumes "dispatch e s = Some s'"
  shows "currentScore s' =
     (if is_correct_answer e s then currentScore s + 10
      else if is_start e s \<or> is_leave e s then 0
      else currentScore s)"
proof (cases e)
  case (KeyDown code)
  then show ?thesis
    using assms
    by (cases "keyMap code")
       (auto simp: dispatch_def handleKeyPress_def is_correct_answer_def answered_color_def
          is_start_def is_leave_def handleColorClick_frame exitGame_frame Let_def
          split: if_splits dest: startGame_frame keyMap_not_start)
next
  case (TimeoutFires h)
  then show ?thesis
    using assms fireTimeout_frame[of h s s']
    by (simp add: dispatch_def is_correct_answer_def answered_color_def is_start_def is_leave_def)
qed (use assms in \<open>auto simp: dispatch_def restartGame_def is_correct_answer_def answered_color_def
          is_start_def is_leave_def handleColorClick_frame exitGame_frame returnToMainMenu_frame
          split: if_splits dest: startGame_frame\<close>)

lemma dispatch_currentTimeLimit:
  assumes "dispatch e s = Some s'"
  shows "currentTimeLimit s' =
     (if is_correct_answer e s then max 800 (currentTimeLimit s - 100)
      else if is_start e s then 3000
      else currentTimeLimit s)"
proof (cases e)
  case (KeyDown code)
  then show ?thesis
    using assms
    by (cases "keyMap code")
       (auto simp: dispatch_def handleKeyPress_def is_correct_answer_def answered_color_def
          is_start_def handleColorClick_frame exitGame_frame Let_def
          split: if_splits dest: startGame_frame keyMap_not_start)
next
  case (TimeoutFires h)
  then show ?thesis
    using assms fireTimeout_frame[of h s s']
    by (simp add: dispatch_def is_correct_answer_def answered_color_def is_start_def)
qed (use assms in \<open>auto simp: dispatch_def restartGame_def is_correct_answer_def answered_color_def
          is_start_def handleColorClick_frame exitGame_frame returnToMainMenu_frame
          split: if_splits dest: startGame_frame\<close>)


lemmas game_defs = startNewRound_def startGame_def generateRoundData_def startTimer_def
  endGame_def exitGame_def returnToMainMenu_def restartGame_def handleKeyPress_def
  constructor_def loadHighScore_def saveHighScore_def dispatch_def fireTimeout_def
  runCallback_def fresh_page_def colors_def colorNames_def array_get_def keyMap_def
  minTimeLimit_def timeDecrement_def

lemma reachable_run: "reachable s \<Longrightarrow> run es s = Some s' \<Longrightarrow> reachable s'"
proof (induction es arbitrary: s)
  case Nil
  then show ?case by simp
next
  case (Cons e es)
  then show ?case by (auto split: option.splits intro: reachable.step)
qed


lemma reachable_score: "reachable s \<Longrightarrow> 0 \<le> currentScore s \<and> 10 dvd currentScore s"
proof (induction rule: reachable.induct)
  case (init page)
  show ?case by (simp add: constructor_def loadHighScore_def display_defs Let_def)
next
  case (step s e s1)
  from dispatch_currentScore[OF step.hyps(2)] step.IH show ?case
    by (auto split: if_splits)
qed

lemma reachable_currentTimeLimit:
  "reachable s \<Longrightarrow> 800 \<le> currentTimeLimit s \<and> currentTimeLimit s \<le> 3000"
proof (induction rule: reachable.induct)
  case (init page)
  show ?case by (simp add: constructor_def loadHighScore_def display_defs Let_def)
next
  case (step s e s1)
  from dispatch_currentTimeLimit[OF step.hyps(2)] step.IH show ?case
    by (auto split: if_splits)
qed

lemma run_currentTimeLimit:
  assumes "run es s = Some s'" "no_start es s"
    "currentTimeLimit s = max 800 (3000 - 100 * int k)"
  shows "currentTimeLimit s' = max 800 (3000 - 100 * int (k + correct_answers es s))"
  using assms
proof (induction es arbitrary: s k)
  case Nil
  then show ?case by simp
next
  case (Cons e es)
  from Cons.prems(1) obtain s1 where s1: "dispatch e s = Some s1" "run es s1 = Some s'"
    by (auto split: option.splits)
  from Cons.prems(2) s1 have ns: "\<not> is_start e s" "no_start es s1" by simp_all
  show ?case
  proof (cases "is_correct_answer e s")
    case True
    with dispatch_currentTimeLimit[OF s1(1)] Cons.prems(3)
    have "currentTimeLimit s1 = max 800 (3000 - 100 * int (Suc k))" by simp
    from Cons.IH[OF s1(2) ns(2) this] True s1(1) show ?thesis by simp
  next
    case False
    with dispatch_currentTimeLimit[OF s1(1)] Cons.prems(3) ns(1)
    have "currentTimeLimit s1 = max 800 (3000 - 100 * int k)" by simp
    from Cons.IH[OF s1(2) ns(2) this] False s1(1) show ?thesis by simp
  qed
qed

text \<open>
  C2. In every reachable state the score is a non-negative multiple of 10.
  \<open>handleCorrectAnswer\<close> adds exactly 10, and an event changes the score in two ways only:
  an accepted correct answer adds 10; starting a game, exiting a running game and returning
  to the menu set it to 0.
\<close>

theorem score_is_multiple_of_ten:
  assumes "reachable s"
  shows "0 \<le> currentScore s \<and> 10 dvd currentScore s
    \<and> currentScore (handleCorrectAnswer s) = currentScore s + 10
    \<and> (\<forall>e s'. dispatch e s = Some s' \<longrightarrow>
          currentScore s' =
            (if is_correct_answer e s then currentScore s + 10
             else if is_start e s \<or> is_leave e s then 0
             else currentScore s))"
proof (intro conjI allI impI)
  show "0 \<le> currentScore s" "10 dvd currentScore s"
    using reachable_score[OF assms] by simp_all
  show "currentScore (handleCorrectAnswer s) = currentScore s + 10"
    by (simp add: answer_defs browser_defs display_defs Let_def)
next
  fix e s' assume "dispatch e s = Some s'"
  then show "currentScore s' =
            (if is_correct_answer e s then currentScore s + 10
             else if is_start e s \<or> is_leave e s then 0
             else currentScore s)"
    by (rule dispatch_currentScore)
qed

text \<open>
  C3. In every reachable state the time limit lies between 800 and 3000. A game starts at
  3000; an accepted correct answer sets the limit to \<open>max 800 (limit - 100)\<close>, which is
  never more than before; no other event changes it, apart from the start of a new game.
  So after \<open>k\<close> correct answers in a game the limit is \<open>3000 - 100 k\<close> while \<open>k < 22\<close>
  and exactly 800 from then on, in particular for every \<open>k \<ge> 23\<close>.
\<close>

theorem currentTimeLimit_ramp:
  assumes "reachable s"
  shows "800 \<le> currentTimeLimit s \<and> currentTimeLimit s \<le> 3000
    \<and> currentTimeLimit (handleCorrectAnswer s) = max 800 (currentTimeLimit s - 100)
    \<and> currentTimeLimit (handleCorrectAnswer s) \<le> currentTimeLimit s
    \<and> (\<forall>e s'. dispatch e s = Some s' \<longrightarrow>
          currentTimeLimit s' =
            (if is_correct_answer e s then max 800 (currentTimeLimit s - 100)
             else if is_start e s then 3000
             else currentTimeLimit s))
    \<and> (\<forall>s1 es s'. startGame s = Some s1 \<and> run es s1 = Some s' \<and> no_start es s1 \<longrightarrow>
          currentTimeLimit s1 = 3000
          \<and> currentTimeLimit s' =
              (if correct_answers es s1 < 22 then 3000 - 100 * int (correct_answers es s1)
               else 800))"
proof -
  note b = reachable_currentTimeLimit[OF assms]
  have hc: "currentTimeLimit (handleCorrectAnswer s) = max 800 (currentTimeLimit s - 100)"
    by (simp add: answer_defs browser_defs display_defs Let_def minTimeLimit_def
        timeDecrement_def)
  have tr: "currentTimeLimit s1 = 3000
          \<and> currentTimeLimit s' =
              (if correct_answers es s1 < 22 then 3000 - 100 * int (correct_answers es s1)
               else 800)"
    if "startGame s = Some s1" "run es s1 = Some s'" "no_start es s1" for s1 es s'
  proof -
    from startGame_frame[OF that(1)] have s1: "currentTimeLimit s1 = 3000" by simp
    then have "currentTimeLimit s1 = max 800 (3000 - 100 * int 0)" by simp
    from run_currentTimeLimit[OF that(2,3) this] s1 show ?thesis by auto
  qed
  show ?thesis
  proof (intro conjI allI impI)
    show "800 \<le> currentTimeLimit s" "currentTimeLimit s \<le> 3000"
      using b by simp_all
    show "currentTimeLimit (handleCorrectAnswer s) = max 800 (currentTimeLimit s - 100)"
      by (rule hc)
    show "currentTimeLimit (handleCorrectAnswer s) \<le> currentTimeLimit s"
      using b hc by simp
  next
    fix e s' assume "dispatch e s = Some s'"
    then show "currentTimeLimit s' =
            (if is_correct_answer e s then max 800 (currentTimeLimit s - 100)
             else if is_start e s then 3000
             else currentTimeLimit s)"
      by (rule dispatch_currentTimeLimit)
  next
    fix s1 es s'
    assume "startGame s = Some s1 \<and> run es s1 = Some s' \<and> no_start es s1"
    then show "currentTimeLimit s1 = 3000"
      "currentTimeLimit s' =
              (if correct_answers es s1 < 22 then 3000 - 100 * int (correct_answers es s1)
               else 800)"
      using tr by blast+
  qed
qed

lemma cycle_simps: "shd (cycle (x # xs)) = x" "stl (cycle (x # xs)) = cycle (xs @ [x])"
  by simp_all

lemma first_round:
  "\<exists>s1. startGame (constructor (fresh_page None (cycle [3/8, 7/8]))) = Some s1
     \<and> isPlaying s1 \<and> correctAnswer s1 = Some ''yellow'' \<and> currentScore s1 = 0
     \<and> currentTimeLimit s1 = 3000 \<and> gameTimer s1 = Some 3 \<and> \<not> buttons_disabled s1"
  by (simp add: game_defs answer_defs browser_defs display_defs Let_def
        drawFontColorIndex.simps cycle_simps)

theorem score_is_multiple_of_ten_witness:
  "\<exists>s1 s2. dispatch StartClick (constructor (fresh_page None (cycle [3/8, 7/8]))) = Some s1
     \<and> reachable s1 \<and> currentScore s1 = 0
     \<and> dispatch (KeyDown ''KeyY'') s1 = Some s2 \<and> is_correct_answer (KeyDown ''KeyY'') s1
     \<and> currentScore s2 = 10 \<and> 10 dvd currentScore s2"
proof -
  let ?s0 = "constructor (fresh_page None (cycle [3/8, 7/8]))"
  from first_round obtain s1 where s1: "startGame ?s0 = Some s1" "isPlaying s1"
    "correctAnswer s1 = Some ''yellow''" "currentScore s1 = 0"
    by blast
  have d1: "dispatch StartClick ?s0 = Some s1"
    using s1(1) by (simp add: dispatch_def)
  have r1: "reachable s1"
    by (rule reachable.step[OF reachable.init d1])
  have d2: "dispatch (KeyDown ''KeyY'') s1 = Some (handleColorClick ''yellow'' s1)"
    using s1(2) by (simp add: dispatch_def handleKeyPress_def keyMap_def)
  have c: "is_correct_answer (KeyDown ''KeyY'') s1"
    using s1(2,3) by (simp add: is_correct_answer_def answered_color_def keyMap_def)
  from score_is_multiple_of_ten[OF r1] d2 c s1(4)
  have "currentScore (handleColorClick ''yellow'' s1) = 10" by simp
  with d1 r1 s1(4) d2 c show ?thesis by simp
qed

theorem currentTimeLimit_ramp_witness:
  "\<exists>s1 s2. startGame (constructor (fresh_page None (cycle [3/8, 7/8]))) = Some s1
     \<and> reachable (constructor (fresh_page None (cycle [3/8, 7/8])))
     \<and> run [KeyDown ''KeyY'', TimeoutFires 5, ColorClick ''yellow''] s1 = Some s2
     \<and> no_start [KeyDown ''KeyY'', TimeoutFires 5, ColorClick ''yellow''] s1
     \<and> correct_answers [KeyDown ''KeyY'', TimeoutFires 5, ColorClick ''yellow''] s1 = 2
     \<and> currentTimeLimit s1 = 3000 \<and> currentTimeLimit s2 = 2800"
proof -
  let ?s0 = "constructor (fresh_page None (cycle [3/8, 7/8]))"
  let ?es = "[KeyDown ''KeyY'', TimeoutFires 5, ColorClick ''yellow'']"
  have "case startGame ?s0 of None \<Rightarrow> False
         | Some s1 \<Rightarrow> no_start ?es s1 \<and> correct_answers ?es s1 = 2 \<and> run ?es s1 \<noteq> None"
    by (simp add: game_defs answer_defs browser_defs display_defs Let_def
        drawFontColorIndex.simps cycle_simps is_start_def is_correct_answer_def
        answered_color_def)
  then obtain s1 s2 where s: "startGame ?s0 = Some s1" "run ?es s1 = Some s2"
    "no_start ?es s1" "correct_answers ?es s1 = 2"
    by (auto split: option.splits)
  have r0: "reachable ?s0" by (rule reachable.init)
  note ramp = currentTimeLimit_ramp[OF r0, THEN conjunct2, THEN conjunct2, THEN conjunct2,
      THEN conjunct2, THEN conjunct2, rule_format, of s1 ?es s2]
  have "currentTimeLimit s1 = 3000 \<and> currentTimeLimit s2 = 2800"
    using ramp s by simp
  with s r0 show ?thesis by (intro exI[of _ s1] exI[of _ s2]) simp
qed

section \<open>The high score at the end of a game\<close>

lemma fireTimeout_highScore:
  assumes "fireTimeout h s = Some s'"
  shows "(highScore s' = highScore s \<and> localStorage s' = localStorage s)
       \<or> (js_gt (currentScore s) (highScore s) \<and> highScore s' = Num (currentScore s)
          \<and> localStorage s' = Some (number_toString (Num (currentScore s))))"
  using assms
  by (auto simp: fireTimeout_def runCallback_def handleTimeUp_frame endGame_highScore
      split: option.splits callback.splits if_splits dest!: startNewRound_frame)

lemma dispatch_highScore:
  assumes "dispatch e s = Some s'"
  shows "(highScore s' = highScore s \<and> localStorage s' = localStorage s)
       \<or> (js_gt (currentScore s) (highScore s) \<and> highScore s' = Num (currentScore s)
          \<and> localStorage s' = Some (number_toString (Num (currentScore s))))"
proof (cases e)
  case (KeyDown code)
  then show ?thesis
    using assms
    by (cases "keyMap code")
       (auto simp: dispatch_def handleKeyPress_def handleColorClick_frame exitGame_frame Let_def
          split: if_splits dest: startGame_frame)
next
  case (TimeoutFires h)
  then show ?thesis
    using assms fireTimeout_highScore[of h s s'] by (simp add: dispatch_def)
qed (use assms in \<open>auto simp: dispatch_def restartGame_def handleColorClick_frame exitGame_frame
          returnToMainMenu_frame split: if_splits dest: startGame_frame\<close>)

lemma reachable_stored:
  assumes "reachable s"
  shows "highScore (loadHighScore (page\<lparr>localStorage := localStorage s\<rparr>)) = highScore s
       \<or> (\<exists>n\<ge>10 ^ 21. highScore s = Num n \<and> localStorage s = Some (number_toString (Num n)))"
  using assms
proof (induction rule: reachable.induct)
  case (init page0)
  show ?case
    by (simp add: constructor_def loadHighScore_def updateHighScoreDisplay_def Let_def)
next
  case (step s e s1)
  from dispatch_highScore[OF step.hyps(2)] show ?case
  proof
    assume "highScore s1 = highScore s \<and> localStorage s1 = localStorage s"
    with step.IH show ?thesis by simp
  next
    assume upd: "js_gt (currentScore s) (highScore s) \<and> highScore s1 = Num (currentScore s)
          \<and> localStorage s1 = Some (number_toString (Num (currentScore s)))"
    from reachable_score[OF step.hyps(1)] have pos: "0 \<le> currentScore s" by simp
    show ?thesis
    proof (cases "currentScore s < 10 ^ 21")
      case True
      with pos have "\<bar>currentScore s\<bar> < 10 ^ 21" by simp
      from parseInt_number_toString[OF this] upd
        number_toString_nonempty[of "Num (currentScore s)"]
      show ?thesis by (simp add: loadHighScore_highScore del: number_toString.simps)
    next
      case False
      with upd show ?thesis by (auto simp del: number_toString.simps)
    qed
  qed
qed

lemma not_js_lt_refl: "\<not> js_lt x x"
  by (cases x) simp_all

text \<open>
  C4. \<open>endGame\<close> replaces the high score by the final score, writes it to storage and shows
  the new-high-score message exactly when the final score is strictly greater than the high
  score; an equal score changes nothing. No event ever lowers the high score. In every
  reachable state the stored value reads back, on any page that holds it, as the current
  high score, so the high score survives a reload; the one exception is a high score of
  \<open>10 ^ 21\<close> or more, which is stored in exponent notation.
\<close>

theorem endGame_high_score:
  "highScore (endGame s) =
     (if js_gt (currentScore s) (highScore s) then Num (currentScore s) else highScore s)
   \<and> localStorage (endGame s) =
     (if js_gt (currentScore s) (highScore s) then Some (number_toString (Num (currentScore s)))
      else localStorage s)
   \<and> highScoreMessage_display (endGame s) =
     (if js_gt (currentScore s) (highScore s) then ''block'' else ''none'')
   \<and> \<not> js_gt (currentScore s) (Num (currentScore s))
   \<and> \<not> js_lt (highScore (endGame s)) (highScore s)
   \<and> (\<forall>e s'. dispatch e s = Some s' \<longrightarrow> \<not> js_lt (highScore s') (highScore s))
   \<and> (reachable s \<longrightarrow>
        highScore (loadHighScore (page\<lparr>localStorage := localStorage s\<rparr>)) = highScore s
        \<or> (\<exists>n\<ge>10 ^ 21. highScore s = Num n
              \<and> localStorage s = Some (number_toString (Num n))))"
proof (intro conjI allI impI)
  show "highScore (endGame s) =
     (if js_gt (currentScore s) (highScore s) then Num (currentScore s) else highScore s)"
    "localStorage (endGame s) =
     (if js_gt (currentScore s) (highScore s) then Some (number_toString (Num (currentScore s)))
      else localStorage s)"
    "highScoreMessage_display (endGame s) =
     (if js_gt (currentScore s) (highScore s) then ''block'' else ''none'')"
    by (rule endGame_highScore)+
  show "\<not> js_gt (currentScore s) (Num (currentScore s))" by simp
  show "\<not> js_lt (highScore (endGame s)) (highScore s)"
    by (cases "highScore s") (simp_all add: endGame_highScore)
next
  fix e s' assume "dispatch e s = Some s'"
  from dispatch_highScore[OF this] show "\<not> js_lt (highScore s') (highScore s)"
    by (cases "highScore s") (auto simp: not_js_lt_refl)
next
  assume "reachable s"
  then show "highScore (loadHighScore (page\<lparr>localStorage := localStorage s\<rparr>)) = highScore s
        \<or> (\<exists>n\<ge>10 ^ 21. highScore s = Num n
              \<and> localStorage s = Some (number_toString (Num n)))"
    by (rule reachable_stored)
qed

theorem endGame_high_score_witness:
  "\<exists>s s'. run [StartClick, KeyDown ''KeyY'', TimeoutFires 5, KeyDown ''KeyR'']
              (constructor (fresh_page None (cycle [3/8, 7/8]))) = Some s
     \<and> reachable s \<and> currentScore s = 10 \<and> highScore s = Num 0
     \<and> dispatch (TimeoutFires 11) s = Some s' \<and> s' = endGame (s\<lparr>timeouts := butlast (timeouts s)\<rparr>)
     \<and> highScore s' = Num 10 \<and> localStorage s' = Some ''10''
     \<and> highScoreMessage_display s' = ''block''
     \<and> \<not> js_lt (highScore s') (highScore s)
     \<and> highScore (loadHighScore s') = Num 10
     \<and> highScore (loadHighScore (fresh_page (localStorage s') (sconst 0))) = Num 10"
proof -
  let ?s0 = "constructor (fresh_page None (cycle [3/8, 7/8]))"
  let ?es = "[StartClick, KeyDown ''KeyY'', TimeoutFires 5, KeyDown ''KeyR'']"
  have "case run ?es ?s0 of None \<Rightarrow> False
        | Some s \<Rightarrow> currentScore s = 10 \<and> highScore s = Num 0 \<and> localStorage s = None
            \<and> dispatch (TimeoutFires 11) s = Some (endGame (s\<lparr>timeouts := butlast (timeouts s)\<rparr>))"
    by (simp add: game_defs answer_defs browser_defs display_defs Let_def
        drawFontColorIndex.simps cycle_simps)
  then obtain s where s: "run ?es ?s0 = Some s" "currentScore s = 10" "highScore s = Num 0"
    "dispatch (TimeoutFires 11) s = Some (endGame (s\<lparr>timeouts := butlast (timeouts s)\<rparr>))"
    by (auto split: option.splits)
  let ?s1 = "s\<lparr>timeouts := butlast (timeouts s)\<rparr>"
  let ?s' = "endGame ?s1"
  have r: "reachable s" by (rule reachable_run[OF reachable.init s(1)])
  have r': "reachable ?s'" by (rule reachable.step[OF r s(4)])
  note t1 = endGame_high_score[of ?s1]
  note t = endGame_high_score[of s, THEN conjunct2, THEN conjunct2, THEN conjunct2,
      THEN conjunct2, THEN conjunct2, THEN conjunct1, rule_format, OF s(4)]
  have dec: "number_toString (Num 10) = ''10''"
    by (simp add: Let_def decimal.simps digit_char_numeral)
  have hs: "highScore ?s' = Num 10" "localStorage ?s' = Some ''10''"
    "highScoreMessage_display ?s' = ''block''"
    using t1 s(2,3) dec by (simp_all del: number_toString.simps)
  have small: "\<not> (\<exists>n\<ge>10 ^ 21. highScore ?s' = Num n
      \<and> localStorage ?s' = Some (number_toString (Num n)))"
    unfolding hs by simp
  from endGame_high_score[of ?s' ?s', THEN conjunct2, THEN conjunct2, THEN conjunct2,
      THEN conjunct2, THEN conjunct2, THEN conjunct2, rule_format, OF r'] small
  have "highScore (loadHighScore (?s'\<lparr>localStorage := localStorage ?s'\<rparr>)) = highScore ?s'"
    by blast
  then have l1: "highScore (loadHighScore ?s') = Num 10"
    using hs(1) by simp
  from endGame_high_score[of ?s' "fresh_page None (sconst 0)", THEN conjunct2, THEN conjunct2,
      THEN conjunct2, THEN conjunct2, THEN conjunct2, THEN conjunct2, rule_format, OF r'] small
  have "highScore (loadHighScore ((fresh_page None (sconst 0))\<lparr>localStorage := localStorage ?s'\<rparr>))
      = highScore ?s'"
    by blast
  moreover have "(fresh_page None (sconst 0))\<lparr>localStorage := localStorage ?s'\<rparr> =
      fresh_page (localStorage ?s') (sconst 0)"
    by (simp add: fresh_page_def)
  ultimately have l2: "highScore (loadHighScore (fresh_page (localStorage ?s') (sconst 0))) = Num 10"
    using hs(1) by simp
  show ?thesis
    using s r t hs l1 l2 by (intro exI[of _ s] exI[of _ ?s']) simp
qed

section \<open>Answers, timeouts and exits outside a running round\<close>

text \<open>With no game running, \<open>exitGame\<close> and \<open>handleColorClick\<close> return at their guard.\<close>

lemma not_playing_no_op:
  "\<not> isPlaying s \<Longrightarrow> exitGame s = s \<and> handleColorClick c s = s"
  by (simp add: exitGame_def handleColorClick_def)

text \<open>
  C5. The guard of \<open>handleColorClick\<close> is \<open>isPlaying\<close>, which stays true while the delay
  after an answer runs. The buttons are disabled then, but a key press reaches
  \<open>handleColorClick\<close> all the same. Evaluated on a game whose first round shows BLUE in
  yellow: after the correct key the score is 10, the buttons are disabled and the next round
  is pending; the same key pressed again before that timeout fires is scored once more
  (score 20, time limit 2800, a second next-round timeout).
\<close>

theorem answer_during_delay_is_scored_again:
  "map_option currentScore
     (run [StartClick, KeyDown ''KeyY'']
        (constructor (fresh_page None (cycle [3/8, 7/8])))) = Some 10
   \<and> map_option buttons_disabled
     (run [StartClick, KeyDown ''KeyY'']
        (constructor (fresh_page None (cycle [3/8, 7/8])))) = Some True
   \<and> map_option timeouts
     (run [StartClick, KeyDown ''KeyY'']
        (constructor (fresh_page None (cycle [3/8, 7/8])))) =
       Some [(1, 10, AddPulse), (2, 50, AnimateTimerBar), (4, 1000, HideFeedback),
             (5, 1000, StartNewRound)]
   \<and> map_option currentScore
     (run [StartClick, KeyDown ''KeyY'', KeyDown ''KeyY'']
        (constructor (fresh_page None (cycle [3/8, 7/8])))) = Some 20
   \<and> map_option currentTimeLimit
     (run [StartClick, KeyDown ''KeyY'', KeyDown ''KeyY'']
        (constructor (fresh_page None (cycle [3/8, 7/8])))) = Some 2800
   \<and> map_option timeouts
     (run [StartClick, KeyDown ''KeyY'', KeyDown ''KeyY'']
        (constructor (fresh_page None (cycle [3/8, 7/8])))) =
       Some [(1, 10, AddPulse), (2, 50, AnimateTimerBar), (4, 1000, HideFeedback),
             (5, 1000, StartNewRound), (6, 1000, HideFeedback), (7, 1000, StartNewRound)]"
  by (simp add: game_defs answer_defs browser_defs display_defs Let_def
        drawFontColorIndex.simps cycle_simps)

text \<open>
  C6, as stated, fails: a wrong answer and a timeout differ in more than the feedback
  message. The wrong answer puts the game area into its shake animation and schedules the
  removal of it; the timeout does neither.
\<close>

theorem timeout_and_wrong_answer_differ_in_shake:
  "map_option gameArea_shake
     (run [StartClick, KeyDown ''KeyR'']
        (constructor (fresh_page None (cycle [3/8, 7/8])))) = Some True
   \<and> map_option gameArea_shake
     (run [StartClick, TimeoutFires 3]
        (constructor (fresh_page None (cycle [3/8, 7/8])))) = Some False
   \<and> map_option timeouts
     (run [StartClick, KeyDown ''KeyR'']
        (constructor (fresh_page None (cycle [3/8, 7/8])))) =
       Some [(1, 10, AddPulse), (2, 50, AnimateTimerBar), (4, 1000, HideFeedback),
             (5, 500, RemoveShake), (6, 1500, EndGame)]
   \<and> map_option timeouts
     (run [StartClick, TimeoutFires 3]
        (constructor (fresh_page None (cycle [3/8, 7/8])))) =
       Some [(1, 10, AddPulse), (2, 50, AnimateTimerBar), (4, 1000, HideFeedback),
             (5, 1500, EndGame)]"
  by (simp add: game_defs answer_defs browser_defs display_defs Let_def
        drawFontColorIndex.simps cycle_simps)

text \<open>
  C6, amended. From a round that awaits its answer, a wrong answer and the firing of the
  round's timeout leave the score and the time limit unchanged and schedule \<open>endGame\<close>
  1500 ms later; the two resulting states agree on every field except the feedback message
  (\<open>Wrong!\<close> against \<open>Time's Up!\<close>) and the shake animation with its removal timeout, which
  shifts the handles of the later timeouts by one.
\<close>

theorem timeout_like_wrong_answer:
  assumes "isPlaying s" and "Some c \<noteq> correctAnswer s" and "gameTimer s = Some h"
    and "find (\<lambda>t. fst t = h) (timeouts s) = Some (h, d, HandleTimeUp)"
  shows "\<exists>A B. handleColorClick c s = A \<and> fireTimeout h s = Some B
    \<and> currentScore A = currentScore s \<and> currentScore B = currentScore s
    \<and> currentTimeLimit A = currentTimeLimit s \<and> currentTimeLimit B = currentTimeLimit s
    \<and> timeouts A = filter (\<lambda>t. fst t \<noteq> h) (timeouts s) @
         [(nextTimeoutId s, 1000, HideFeedback), (nextTimeoutId s + 1, 500, RemoveShake),
          (nextTimeoutId s + 2, 1500, EndGame)]
    \<and> timeouts B = filter (\<lambda>t. fst t \<noteq> h) (timeouts s) @
         [(nextTimeoutId s, 1000, HideFeedback), (nextTimeoutId s + 1, 1500, EndGame)]
    \<and> feedback_text A = ''Wrong!'' \<and> feedback_text B = ''Time's Up!''
    \<and> gameArea_shake A \<and> gameArea_shake B = gameArea_shake s
    \<and> (\<forall>x y z k.
          A\<lparr>feedback_text := x, gameArea_shake := y, timeouts := z, nextTimeoutId := k\<rparr> =
          B\<lparr>feedback_text := x, gameArea_shake := y, timeouts := z, nextTimeoutId := k\<rparr>)"
proof -
  have eq: "(\<lambda>t. Some (fst t) \<noteq> Some h) = (\<lambda>t. fst t \<noteq> h)" by simp
  show ?thesis
    using assms
    by (simp add: fireTimeout_def runCallback_def answer_defs browser_defs display_defs Let_def)
qed

theorem timeout_like_wrong_answer_witness:
  "\<exists>s A B. run [StartClick] (constructor (fresh_page None (cycle [3/8, 7/8]))) = Some s
     \<and> isPlaying s \<and> Some ''red'' \<noteq> correctAnswer s \<and> gameTimer s = Some 3
     \<and> find (\<lambda>t. fst t = 3) (timeouts s) = Some (3, 3000, HandleTimeUp)
     \<and> dispatch (KeyDown ''KeyR'') s = Some A \<and> dispatch (TimeoutFires 3) s = Some B
     \<and> feedback_text A = ''Wrong!'' \<and> feedback_text B = ''Time's Up!''
     \<and> currentScore A = currentScore B \<and> currentTimeLimit A = currentTimeLimit B
     \<and> A\<lparr>feedback_text := [], gameArea_shake := False, timeouts := [], nextTimeoutId := 0\<rparr> =
        B\<lparr>feedback_text := [], gameArea_shake := False, timeouts := [], nextTimeoutId := 0\<rparr>"
proof -
  let ?s0 = "constructor (fresh_page None (cycle [3/8, 7/8]))"
  have "case run [StartClick] ?s0 of None \<Rightarrow> False
        | Some s \<Rightarrow> isPlaying s \<and> Some ''red'' \<noteq> correctAnswer s \<and> gameTimer s = Some 3
            \<and> find (\<lambda>t. fst t = 3) (timeouts s) = Some (3, 3000, HandleTimeUp)"
    by (simp add: game_defs answer_defs browser_defs display_defs Let_def
        drawFontColorIndex.simps cycle_simps)
  then obtain s where s: "run [StartClick] ?s0 = Some s" "isPlaying s"
    "Some ''red'' \<noteq> correctAnswer s" "gameTimer s = Some 3"
    "find (\<lambda>t. fst t = 3) (timeouts s) = Some (3, 3000, HandleTimeUp)"
    by (auto split: option.splits)
  from timeout_like_wrong_answer[OF s(2-5)] obtain A B where
    AB: "handleColorClick ''red'' s = A" "fireTimeout 3 s = Some B"
      "currentScore A = currentScore s" "currentScore B = currentScore s"
      "currentTimeLimit A = currentTimeLimit s" "currentTimeLimit B = currentTimeLimit s"
      "feedback_text A = ''Wrong!''" "feedback_text B = ''Time's Up!''"
      "\<forall>x y z k.
          A\<lparr>feedback_text := x, gameArea_shake := y, timeouts := z, nextTimeoutId := k\<rparr> =
          B\<lparr>feedback_text := x, gameArea_shake := y, timeouts := z, nextTimeoutId := k\<rparr>"
    by blast
  have dA: "dispatch (KeyDown ''KeyR'') s = Some A"
    using s(2) AB(1) by (simp add: dispatch_def handleKeyPress_def keyMap_def)
  have dB: "dispatch (TimeoutFires 3) s = Some B"
    using AB(2) by (simp add: dispatch_def)
  have same: "A\<lparr>feedback_text := [], gameArea_shake := False, timeouts := [], nextTimeoutId := 0\<rparr> =
        B\<lparr>feedback_text := [], gameArea_shake := False, timeouts := [], nextTimeoutId := 0\<rparr>"
    using AB(9) by blast
  show ?thesis
    using s dA dB AB(3-8) same
    by (intro exI[of _ s] exI[of _ A] exI[of _ B]) simp
qed

text \<open>
  C8. \<open>exitGame\<close> clears the timeout held in \<open>gameTimer\<close> only. Evaluated on a game whose
  first round is answered wrongly and then exited: the game is stopped, the score is 0 and
  no game-over screen shows, but the \<open>endGame\<close> timeout of the wrong answer is still
  pending; when it fires, \<open>endGame\<close> runs and the game-over screen appears.
\<close>

theorem exitGame_leaves_endGame_pending:
  "map_option isPlaying
     (run [StartClick, KeyDown ''KeyR'', ExitClick]
        (constructor (fresh_page None (cycle [3/8, 7/8])))) = Some False
   \<and> map_option currentScore
     (run [StartClick, KeyDown ''KeyR'', ExitClick]
        (constructor (fresh_page None (cycle [3/8, 7/8])))) = Some 0
   \<and> map_option gameOverScreen_display
     (run [StartClick, KeyDown ''KeyR'', ExitClick]
        (constructor (fresh_page None (cycle [3/8, 7/8])))) = Some ''none''
   \<and> map_option timeouts
     (run [StartClick, KeyDown ''KeyR'', ExitClick]
        (constructor (fresh_page None (cycle [3/8, 7/8])))) =
       Some [(1, 10, AddPulse), (2, 50, AnimateTimerBar), (4, 1000, HideFeedback),
             (5, 500, RemoveShake), (6, 1500, EndGame), (7, 1000, HideFeedback)]
   \<and> map_option gameOverScreen_display
     (run [StartClick, KeyDown ''KeyR'', ExitClick, TimeoutFires 6]
        (constructor (fresh_page None (cycle [3/8, 7/8])))) = Some ''flex''"
  by (simp add: game_defs answer_defs browser_defs display_defs Let_def
        drawFontColorIndex.simps cycle_simps)

end
